theory Spec2Isabelle
  imports Complex_Main "HOL-Library.Char_ord" "HOL-Library.List_Lexorder"
begin

section \<open>A content-based movie recommender: TF-IDF vectors ranked by cosine similarity\<close>

text \<open>
  The notebook \<^verbatim>\<open>recommender.ipynb\<close> has three functions.
  \<^verbatim>\<open>form_corpus\<close> appends the query to the list of plots,
  \<^verbatim>\<open>calculate_cos_similarities\<close> vectorizes that corpus with scikit-learn's
  \<^verbatim>\<open>TfidfVectorizer()\<close> and compares every plot with the query by
  \<^verbatim>\<open>cosine_similarity\<close>, and \<^verbatim>\<open>find_recommendations\<close> picks the rows
  \<^verbatim>\<open>cos_sims.argsort()[-n:][::-1]\<close> of the movie table.

  Exceptions are values of a sum type (\<open>Inl\<close> the exception). The table read from
  \<^verbatim>\<open>movie_plots.csv\<close> is an argument. Weights and scores are real numbers, the
  values that the 64-bit floats of the libraries approximate. Text is a list of
  characters with code points below 256; no general lemma below looks inside the
  tokenizer.
\<close>

subsection \<open>Data\<close>

datatype error =
    EmptyVocabulary         \<comment> \<open>ValueError: empty vocabulary (the vectorizer found no term)\<close>
  | ZeroSamples             \<comment> \<open>ValueError: an array with 0 rows where at least 1 is required\<close>
  | IncompatibleDimension   \<comment> \<open>ValueError: the two matrices differ in their number of columns\<close>
  | IndexError              \<comment> \<open>IndexError: a position outside the table\<close>

record movie =
  Title :: string
  Plot :: string

subsection \<open>\<^verbatim>\<open>form_corpus\<close>\<close>

definition form_corpus :: "movie list \<Rightarrow> string \<Rightarrow> string list" where
  "form_corpus movies query = map Plot movies @ [query]"

subsection \<open>The vectorizer: \<^verbatim>\<open>TfidfVectorizer().fit_transform\<close>\<close>

text \<open>
  With its default arguments the vectorizer lower-cases a document, takes as tokens the
  matches of \<^verbatim>\<open>(?u)\b\w\w+\b\<close> (the maximal runs of two or more word characters),
  numbers the distinct tokens of the whole corpus in sorted order, and refuses a corpus
  with no token at all. A row holds, for every term of the vocabulary, the number of
  occurrences in the document times the smoothed inverse document frequency, and is then
  divided by its Euclidean norm; a row of zeros is left as it is.
\<close>

text \<open>
  A character is a code point below 256 (ASCII and the Latin-1 supplement). The word
  characters \<^verbatim>\<open>\w\<close> of a Unicode pattern are the alphanumeric ones and the
  underscore: the digits, the ASCII letters, the letters \<open>U+00AA\<close>, \<open>U+00B5\<close>,
  \<open>U+00BA\<close>, \<open>U+00C0\<close> to \<open>U+00FF\<close> without the signs \<open>U+00D7\<close> and \<open>U+00F7\<close>,
  and the numeric characters \<open>U+00B2\<close>, \<open>U+00B3\<close>, \<open>U+00B9\<close>, \<open>U+00BC\<close> to
  \<open>U+00BE\<close>. \<^verbatim>\<open>str.lower\<close> moves an upper-case letter (\<open>A\<close> to \<open>Z\<close>,
  \<open>U+00C0\<close> to \<open>U+00DE\<close> without \<open>U+00D7\<close>) 32 code points up, which sets the bit of
  value 32, and leaves every other character of the range as it is.
\<close>

definition word_char :: "char \<Rightarrow> bool" where
  "word_char c \<longleftrightarrow>
     (let k = (of_char c :: nat) in
        (48 \<le> k \<and> k \<le> 57) \<or> (65 \<le> k \<and> k \<le> 90) \<or> k = 95 \<or> (97 \<le> k \<and> k \<le> 122) \<or>
        k \<in> {170, 178, 179, 181, 185, 186, 188, 189, 190} \<or>
        (192 \<le> k \<and> k \<le> 214) \<or> (216 \<le> k \<and> k \<le> 246) \<or> 248 \<le> k)"

definition lower :: "char \<Rightarrow> char" where
  "lower c =
     (let k = (of_char c :: nat) in
        if (65 \<le> k \<and> k \<le> 90) \<or> (192 \<le> k \<and> k \<le> 214) \<or> (216 \<le> k \<and> k \<le> 222)
        then (case c of Char b0 b1 b2 b3 b4 b5 b6 b7 \<Rightarrow> Char b0 b1 b2 b3 b4 True b6 b7)
        else c)"

definition emit :: "string \<Rightarrow> string list" where
  "emit w = (if 2 \<le> length w then [w] else [])"

fun findall :: "string \<Rightarrow> string \<Rightarrow> string list" where
  "findall w [] = emit w"
| "findall w (c # cs) =
     (if word_char c then findall (w @ [c]) cs else emit w @ findall [] cs)"

definition analyze :: "string \<Rightarrow> string list" where
  "analyze doc = findall [] (map lower doc)"

definition vocabulary :: "string list \<Rightarrow> string list" where
  "vocabulary corpus = sort (remdups (concat (map analyze corpus)))"

definition df :: "string list \<Rightarrow> string \<Rightarrow> nat" where
  "df corpus t = length (filter (\<lambda>doc. t \<in> set (analyze doc)) corpus)"

definition idf :: "string list \<Rightarrow> string \<Rightarrow> real" where
  "idf corpus t = ln ((1 + real (length corpus)) / (1 + real (df corpus t))) + 1"

definition l2_norm :: "real list \<Rightarrow> real" where
  "l2_norm v = sqrt (sum_list (map (\<lambda>x. x * x) v))"

definition normalize :: "real list \<Rightarrow> real list" where
  "normalize v = (let nrm = l2_norm v in map (\<lambda>x. x / (if nrm = 0 then 1 else nrm)) v)"

definition tfidf_row :: "string list \<Rightarrow> string \<Rightarrow> real list" where
  "tfidf_row corpus doc =
     normalize (map (\<lambda>t. real (count_list (analyze doc) t) * idf corpus t) (vocabulary corpus))"

definition fit_transform :: "string list \<Rightarrow> error + real list list" where
  "fit_transform corpus =
     (if vocabulary corpus = [] then Inl EmptyVocabulary
      else Inr (map (tfidf_row corpus) corpus))"

subsection \<open>\<^verbatim>\<open>cosine_similarity\<close> and \<^verbatim>\<open>calculate_cos_similarities\<close>\<close>

text \<open>
  \<^verbatim>\<open>cosine_similarity(X, Y)\<close> validates both matrices (each needs a row, and both the
  same number of columns), normalizes their rows once more and returns the matrix of dot
  products. The notebook passes all rows but the last as \<open>X\<close> and the last row as the
  one-row matrix \<open>Y\<close>, and flattens the result.
\<close>

definition dot :: "real list \<Rightarrow> real list \<Rightarrow> real" where
  "dot u v = sum_list (map2 (*) u v)"

definition cosine_similarity :: "real list list \<Rightarrow> real list list \<Rightarrow> error + real list list" where
  "cosine_similarity X Y =
     (if X = [] \<or> Y = [] then Inl ZeroSamples
      else if length (hd X) = length (hd Y)
      then Inr (map (\<lambda>x. map (\<lambda>y. dot (normalize x) (normalize y)) Y) X)
      else Inl IncompatibleDimension)"

definition calculate_cos_similarities :: "string list \<Rightarrow> error + real list" where
  "calculate_cos_similarities corpus =
     (case fit_transform corpus of
        Inl e \<Rightarrow> Inl e
      | Inr tfidf_matrix \<Rightarrow>
          (case tfidf_matrix of
             [] \<Rightarrow> Inl IndexError
           | _ # _ \<Rightarrow>
               (case cosine_similarity (butlast tfidf_matrix) [last tfidf_matrix] of
                  Inl e \<Rightarrow> Inl e
                | Inr K \<Rightarrow> Inr (concat K))))"

subsection \<open>Ranking: \<^verbatim>\<open>find_recommendations\<close>\<close>

text \<open>
  \<^verbatim>\<open>a[start:]\<close> on a sequence: a negative start counts from the end, and a start
  beyond either end is clipped.
\<close>

definition slice_from :: "int \<Rightarrow> 'a list \<Rightarrow> 'a list" where
  "slice_from start xs =
     (if start < 0 then drop (nat (int (length xs) + start)) xs else drop (nat start) xs)"

text \<open>
  \<^verbatim>\<open>cos_sims.argsort()\<close> returns the positions of the array in ascending order of
  the values. It is called with NumPy's default sorting kind, which is not stable: the
  order it gives to equal values changes with the length of the array and with the
  build of the library. The ranking therefore takes the sorting function as an argument
  \<open>asort\<close>, and \<open>argsort_ok\<close> is all that is known of it: the result is a permutation of
  the positions along which the values do not decrease.
\<close>

definition argsort_ok :: "(real list \<Rightarrow> nat list) \<Rightarrow> bool" where
  "argsort_ok asort \<longleftrightarrow>
     (\<forall>a. distinct (asort a) \<and> set (asort a) = {..<length a} \<and>
          sorted (map (\<lambda>i. a ! i) (asort a)))"

text \<open>
  Two sorting functions within that contract, for concrete runs: \<open>argsort_stable\<close>
  leaves positions of equal value in ascending order (NumPy's \<^verbatim>\<open>kind='stable'\<close>),
  \<open>argsort_reverse_ties\<close> leaves them in descending order. Neither is the sort of the
  program; what holds for one of them only is not a property of the program.
\<close>

definition argsort_stable :: "real list \<Rightarrow> nat list" where
  "argsort_stable a = sort_key (\<lambda>i. a ! i) [0..<length a]"

definition argsort_reverse_ties :: "real list \<Rightarrow> nat list" where
  "argsort_reverse_ties a = rev (sort_key (\<lambda>i. - (a ! i)) [0..<length a])"

definition top_idxs :: "(real list \<Rightarrow> nat list) \<Rightarrow> real list \<Rightarrow> int \<Rightarrow> nat list" where
  "top_idxs asort cos_sims n = rev (slice_from (- n) (asort cos_sims))"

text \<open>\<^verbatim>\<open>movies.iloc[idxs]\<close>: the rows at the given positions, in the given order.\<close>

definition iloc :: "'a list \<Rightarrow> nat list \<Rightarrow> error + 'a list" where
  "iloc rows idxs =
     (if list_all (\<lambda>i. i < length rows) idxs then Inr (map (\<lambda>i. rows ! i) idxs)
      else Inl IndexError)"

definition find_recommendations ::
  "(real list \<Rightarrow> nat list) \<Rightarrow> movie list \<Rightarrow> string \<Rightarrow> int \<Rightarrow> error + movie list" where
  "find_recommendations asort movies query n =
     (case calculate_cos_similarities (form_corpus movies query) of
        Inl e \<Rightarrow> Inl e
      | Inr cos_sims \<Rightarrow> iloc movies (top_idxs asort cos_sims n))"

section \<open>Properties\<close>

subsection \<open>Slicing and ranking under any \<open>argsort\<close>\<close>

lemma argsort_ok_stable: "argsort_ok argsort_stable"
  by (auto simp: argsort_ok_def argsort_stable_def sorted_sort_key)

lemma length_asort: "argsort_ok asort \<Longrightarrow> length (asort a) = length a"
proof -
  assume ok: "argsort_ok asort"
  then have "distinct (asort a)" and "set (asort a) = {..<length a}"
    by (simp_all add: argsort_ok_def)
  then show ?thesis
    using distinct_card [of "asort a"] by simp
qed

lemma set_slice_from: "set (slice_from s xs) \<subseteq> set xs"
  by (simp add: slice_from_def set_drop_subset)

lemma length_slice_from_last: "0 < n \<Longrightarrow> length (slice_from (- n) xs) = min (nat n) (length xs)"
  by (auto simp: slice_from_def)

lemma length_slice_from_nonpos: "n \<le> 0 \<Longrightarrow> length (slice_from (- n) xs) = length xs - nat (- n)"
  by (auto simp: slice_from_def)

lemma top_idxs_in_range:
  "argsort_ok asort \<Longrightarrow> i \<in> set (top_idxs asort a n) \<Longrightarrow> i < length a"
  using set_slice_from [of "- n" "asort a"] by (auto simp: top_idxs_def argsort_ok_def)

lemma length_top_idxs:
  "argsort_ok asort \<Longrightarrow> 0 < n \<Longrightarrow> length (top_idxs asort a n) = min (nat n) (length a)"
  by (simp add: top_idxs_def length_slice_from_last length_asort)

lemma length_top_idxs_nonpos:
  "argsort_ok asort \<Longrightarrow> n \<le> 0 \<Longrightarrow> length (top_idxs asort a n) = length a - nat (- n)"
  by (simp add: top_idxs_def length_slice_from_nonpos length_asort)

lemma sorted_wrt_slice_from: "sorted_wrt R xs \<Longrightarrow> sorted_wrt R (slice_from s xs)"
  by (simp add: slice_from_def sorted_wrt_drop)

lemma top_idxs_descending:
  assumes "argsort_ok asort"
  shows "sorted_wrt (\<ge>) (map (\<lambda>i. a ! i) (top_idxs asort a n))"
proof -
  from assms have "sorted_wrt (\<le>) (map (\<lambda>i. a ! i) (asort a))"
    by (simp add: argsort_ok_def)
  then have "sorted_wrt (\<lambda>i j. a ! i \<le> a ! j) (slice_from (- n) (asort a))"
    by (simp add: sorted_wrt_map sorted_wrt_slice_from)
  then show ?thesis
    by (simp add: top_idxs_def sorted_wrt_map sorted_wrt_rev)
qed

lemma iloc_in_range:
  "(\<And>i. i \<in> set idxs \<Longrightarrow> i < length rows) \<Longrightarrow> iloc rows idxs = Inr (map (\<lambda>i. rows ! i) idxs)"
  by (simp add: iloc_def list_all_iff)

subsection \<open>Two sorting functions within the contract\<close>

text \<open>
  \<open>argsort_stable\<close> leaves positions of equal value in ascending order and
  \<open>argsort_reverse_ties\<close> in descending order; the slice keeps the order and the
  reversal turns it round. Both meet \<open>argsort_ok\<close>.
\<close>

lemma insort_key_ties:
  assumes "sorted_wrt (\<lambda>x y. f x = f y \<longrightarrow> x < y) xs"
    and "\<And>y. y \<in> set xs \<Longrightarrow> a < y"
  shows "sorted_wrt (\<lambda>x y. f x = f y \<longrightarrow> x < y) (insort_key f a xs)"
  using assms by (induction xs) (auto simp: set_insort_key)

lemma sort_key_ties:
  "sorted_wrt (<) xs \<Longrightarrow> sorted_wrt (\<lambda>x y. f x = f y \<longrightarrow> x < y) (sort_key f xs)"
  for xs :: "nat list"
  by (induction xs) (auto intro!: insort_key_ties)

lemma argsort_stable_ties: "sorted_wrt (\<lambda>i j. a ! i = a ! j \<longrightarrow> i < j) (argsort_stable a)"
  by (simp add: argsort_stable_def sort_key_ties)

lemma top_idxs_stable_ties:
  "sorted_wrt (\<lambda>i j. a ! i = a ! j \<longrightarrow> j < i) (top_idxs argsort_stable a n)"
proof -
  have "sorted_wrt (\<lambda>i j. a ! i = a ! j \<longrightarrow> i < j) (slice_from (- n) (argsort_stable a))"
    by (rule sorted_wrt_slice_from) (rule argsort_stable_ties)
  then show ?thesis
    by (simp add: top_idxs_def sorted_wrt_rev eq_commute)
qed

lemma argsort_stable_sorted_input: "sorted a \<Longrightarrow> argsort_stable a = [0..<length a]"
  unfolding argsort_stable_def
  by (rule sort_key_id_if_sorted) (simp add: map_nth)

lemma top_idxs_stable_replicate:
  assumes "0 < n"
  shows "map (\<lambda>i. rows ! i) (top_idxs argsort_stable (replicate (length rows) c) n) = take (nat n) (rev rows)"
proof -
  let ?k = "nat (int (length rows) - n)"
  have "argsort_stable (replicate (length rows) c) = [0..<length rows]"
    using argsort_stable_sorted_input [of "replicate (length rows) c"] by (simp add: sorted_replicate)
  then have "top_idxs argsort_stable (replicate (length rows) c) n = rev (drop ?k [0..<length rows])"
    using assms by (simp add: top_idxs_def slice_from_def)
  then have "map (\<lambda>i. rows ! i) (top_idxs argsort_stable (replicate (length rows) c) n)
      = rev (drop ?k (map (\<lambda>i. rows ! i) [0..<length rows]))"
    by (simp only: rev_map drop_map)
  also have "\<dots> = rev (drop ?k rows)"
    by (simp only: map_nth)
  also have "\<dots> = take (length rows - ?k) (rev rows)"
    by (rule rev_drop)
  also have "\<dots> = take (nat n) (rev rows)"
  proof (cases "int (length rows) \<le> n")
    case True
    then show ?thesis by simp
  next
    case False
    then have "length rows - ?k = nat n" using assms by linarith
    then show ?thesis by simp
  qed
  finally show ?thesis .
qed

lemma map_nth_fun: "map (\<lambda>i. f (xs ! i)) [0..<length xs] = map f xs"
  by (rule nth_equalityI) simp_all

lemma argsort_ok_reverse_ties: "argsort_ok argsort_reverse_ties"
proof -
  have "sorted (map (\<lambda>i. a ! i) (argsort_reverse_ties a))" for a :: "real list"
  proof -
    let ?l = "sort_key (\<lambda>i. - (a ! i)) [0..<length a]"
    have "sorted (map (\<lambda>i. - (a ! i)) ?l)"
      by (rule sorted_sort_key)
    then have "sorted_wrt (\<lambda>i j. a ! j \<le> a ! i) ?l"
      by (simp add: sorted_wrt_map)
    then show ?thesis
      by (simp add: argsort_reverse_ties_def sorted_wrt_map sorted_wrt_rev)
  qed
  then show ?thesis
    by (auto simp: argsort_ok_def argsort_reverse_ties_def)
qed

lemma argsort_reverse_ties_ties:
  "sorted_wrt (\<lambda>i j. a ! i = a ! j \<longrightarrow> j < i) (argsort_reverse_ties a)"
proof -
  have "sorted_wrt (\<lambda>x y. - (a ! x) = - (a ! y) \<longrightarrow> x < y) (sort_key (\<lambda>i. - (a ! i)) [0..<length a])"
    by (rule sort_key_ties) simp
  then have "sorted_wrt (\<lambda>x y. a ! y = a ! x \<longrightarrow> x < y) (sort_key (\<lambda>i. - (a ! i)) [0..<length a])"
    by (rule sorted_wrt_mono_rel [rotated]) auto
  then show ?thesis
    by (simp add: argsort_reverse_ties_def sorted_wrt_rev)
qed

lemma top_idxs_reverse_ties_ties:
  "sorted_wrt (\<lambda>i j. a ! i = a ! j \<longrightarrow> i < j) (top_idxs argsort_reverse_ties a n)"
proof -
  have "sorted_wrt (\<lambda>i j. a ! i = a ! j \<longrightarrow> j < i) (slice_from (- n) (argsort_reverse_ties a))"
    by (rule sorted_wrt_slice_from) (rule argsort_reverse_ties_ties)
  then have "sorted_wrt (\<lambda>i j. a ! j = a ! i \<longrightarrow> i < j) (rev (slice_from (- n) (argsort_reverse_ties a)))"
    by (simp add: sorted_wrt_rev)
  then show ?thesis
    unfolding top_idxs_def by (rule sorted_wrt_mono_rel [rotated]) auto
qed

lemma sorted_wrt_before:
  assumes "sorted_wrt R l" and "x \<in> set l" and "y \<in> set l" and "x \<noteq> y" and "\<not> R y x"
  shows "\<exists>i j. i < j \<and> j < length l \<and> l ! i = x \<and> l ! j = y"
proof -
  from assms(2,3) obtain i j where ij: "i < length l" "l ! i = x" "j < length l" "l ! j = y"
    by (auto simp: in_set_conv_nth)
  with assms(4) have "i \<noteq> j" by auto
  moreover have "\<not> j < i"
    using sorted_wrt_nth_less [OF assms(1), of j i] ij assms(5) by auto
  ultimately have "i < j" by simp
  with ij show ?thesis by blast
qed

lemma tie_order_stable:
  assumes "p < q" and "a ! p = a ! q"
    and "p \<in> set (top_idxs argsort_stable a n)" and "q \<in> set (top_idxs argsort_stable a n)"
  shows "\<exists>i j. i < j \<and> j < length (top_idxs argsort_stable a n) \<and>
           top_idxs argsort_stable a n ! i = q \<and> top_idxs argsort_stable a n ! j = p"
  using top_idxs_stable_ties assms(4,3)
  by (rule sorted_wrt_before) (use assms(1,2) in auto)

lemma tie_order_reverse_ties:
  assumes "p < q" and "a ! p = a ! q"
    and "p \<in> set (top_idxs argsort_reverse_ties a n)" and "q \<in> set (top_idxs argsort_reverse_ties a n)"
  shows "\<exists>i j. i < j \<and> j < length (top_idxs argsort_reverse_ties a n) \<and>
           top_idxs argsort_reverse_ties a n ! i = p \<and> top_idxs argsort_reverse_ties a n ! j = q"
  using top_idxs_reverse_ties_ties assms(3,4)
  by (rule sorted_wrt_before) (use assms(1,2) in auto)

lemma set_top_idxs_all:
  assumes "argsort_ok asort" and "int (length a) \<le> n"
  shows "set (top_idxs asort a n) = {..<length a}"
proof -
  have "length (asort a) = length a" using assms(1) by (rule length_asort)
  then have "slice_from (- n) (asort a) = asort a"
    using assms(2) by (auto simp: slice_from_def)
  then show ?thesis
    using assms(1) by (simp add: top_idxs_def argsort_ok_def)
qed

lemma argsort_reverse_ties_replicate: "argsort_reverse_ties (replicate m c) = rev [0..<m]"
proof -
  have "map (\<lambda>i. - (replicate m c ! i)) [0..<m] = replicate m (- c)"
    by (rule nth_equalityI) simp_all
  then have "sorted (map (\<lambda>i. - (replicate m c ! i)) [0..<m])"
    by (simp add: sorted_replicate)
  then have "sort_key (\<lambda>i. - (replicate m c ! i)) [0..<m] = [0..<m]"
    by (rule sort_key_id_if_sorted)
  then show ?thesis by (simp add: argsort_reverse_ties_def)
qed

lemma top_idxs_reverse_ties_replicate:
  assumes "0 < n"
  shows "map (\<lambda>i. rows ! i) (top_idxs argsort_reverse_ties (replicate (length rows) c) n)
         = take (nat n) rows"
proof -
  let ?k = "nat (int (length rows) - n)"
  have "top_idxs argsort_reverse_ties (replicate (length rows) c) n = rev (drop ?k (rev [0..<length rows]))"
    using assms by (simp add: top_idxs_def slice_from_def argsort_reverse_ties_replicate)
  also have "\<dots> = take (length rows - ?k) [0..<length rows]"
    by (simp add: rev_drop)
  finally have "map (\<lambda>i. rows ! i) (top_idxs argsort_reverse_ties (replicate (length rows) c) n)
      = take (length rows - ?k) (map (\<lambda>i. rows ! i) [0..<length rows])"
    by (simp only: take_map)
  also have "\<dots> = take (length rows - ?k) rows"
    by (simp only: map_nth)
  also have "\<dots> = take (nat n) rows"
  proof (cases "int (length rows) \<le> n")
    case True
    then show ?thesis by simp
  next
    case False
    then have "length rows - ?k = nat n" using assms by linarith
    then show ?thesis by simp
  qed
  finally show ?thesis .
qed

subsection \<open>What \<^verbatim>\<open>calculate_cos_similarities\<close> returns\<close>

lemma calculate_cos_similarities_cases:
  "calculate_cos_similarities corpus =
     (if vocabulary corpus = [] then Inl EmptyVocabulary
      else if length corpus \<le> 1 then Inl ZeroSamples
      else Inr (map (\<lambda>doc. dot (normalize (tfidf_row corpus doc))
                               (normalize (tfidf_row corpus (last corpus)))) (butlast corpus)))"
proof (cases corpus)
  case Nil
  then show ?thesis
    by (simp add: calculate_cos_similarities_def fit_transform_def vocabulary_def)
next
  case (Cons d ds)
  show ?thesis
  proof (cases ds)
    case Nil
    with Cons show ?thesis
      by (simp add: calculate_cos_similarities_def fit_transform_def cosine_similarity_def)
  next
    case (Cons e es)
    have len: "length (tfidf_row corpus x) = length (vocabulary corpus)" for x
      by (simp add: tfidf_row_def normalize_def Let_def)
    have ne: "map (tfidf_row corpus) (butlast corpus) \<noteq> []"
      using \<open>corpus = d # ds\<close> Cons by simp
    have bl: "butlast (map (tfidf_row corpus) corpus) = map (tfidf_row corpus) (butlast corpus)"
      by (simp add: map_butlast)
    have la: "last (map (tfidf_row corpus) corpus) = tfidf_row corpus (last corpus)"
      using \<open>corpus = d # ds\<close> by (simp add: last_map)
    have hd: "length (hd (map (tfidf_row corpus) (butlast corpus))) = length (vocabulary corpus)"
      using ne by (simp add: hd_map len)
    have cs: "cosine_similarity (map (tfidf_row corpus) (butlast corpus)) [tfidf_row corpus (last corpus)]
        = Inr (map (\<lambda>x. [dot (normalize x) (normalize (tfidf_row corpus (last corpus)))])
                 (map (tfidf_row corpus) (butlast corpus)))"
      unfolding cosine_similarity_def using ne hd by (simp add: len)
    have mt: "map (tfidf_row corpus) corpus = tfidf_row corpus d # map (tfidf_row corpus) ds"
      using \<open>corpus = d # ds\<close> by simp
    have long: "\<not> length corpus \<le> 1" using \<open>corpus = d # ds\<close> Cons by simp
    show ?thesis
    proof (cases "vocabulary corpus = []")
      case True
      then show ?thesis by (simp add: calculate_cos_similarities_def fit_transform_def)
    next
      case False
      have "calculate_cos_similarities corpus =
          (case cosine_similarity (butlast (map (tfidf_row corpus) corpus))
                  [last (map (tfidf_row corpus) corpus)] of
             Inl e \<Rightarrow> Inl e | Inr K \<Rightarrow> Inr (concat K))"
        using False by (simp add: calculate_cos_similarities_def fit_transform_def mt)
      also have "\<dots> = Inr (concat (map (\<lambda>x. [dot (normalize x) (normalize (tfidf_row corpus (last corpus)))])
                 (map (tfidf_row corpus) (butlast corpus))))"
        by (simp only: bl la cs sum.case)
      also have "\<dots> = Inr (map (\<lambda>doc. dot (normalize (tfidf_row corpus doc))
                               (normalize (tfidf_row corpus (last corpus)))) (butlast corpus))"
        by (simp add: concat_map_singleton comp_def)
      finally show ?thesis using False long by simp
    qed
  qed
qed

lemma butlast_form_corpus: "butlast (form_corpus movies query) = map Plot movies"
  by (simp add: form_corpus_def)

lemma last_form_corpus: "last (form_corpus movies query) = query"
  by (simp add: form_corpus_def)

lemma length_form_corpus: "length (form_corpus movies query) = Suc (length movies)"
  by (simp add: form_corpus_def)

lemma length_cos_sims:
  "calculate_cos_similarities (form_corpus movies query) = Inr cos_sims \<Longrightarrow>
   length cos_sims = length movies"
  by (auto simp: calculate_cos_similarities_cases butlast_form_corpus split: if_splits)

subsection \<open>Documents that share no term with the query\<close>

lemma length_normalize: "length (normalize v) = length v"
  by (simp add: normalize_def Let_def)

lemma normalize_zero_nth: "k < length v \<Longrightarrow> v ! k = 0 \<Longrightarrow> normalize v ! k = 0"
  by (simp add: normalize_def Let_def)

lemma length_tfidf_row: "length (tfidf_row corpus doc) = length (vocabulary corpus)"
  by (simp add: tfidf_row_def length_normalize)

lemma tfidf_row_absent:
  "k < length (vocabulary corpus) \<Longrightarrow> vocabulary corpus ! k \<notin> set (analyze doc) \<Longrightarrow>
   tfidf_row corpus doc ! k = 0"
  by (simp add: tfidf_row_def normalize_zero_nth)

lemma sum_list_all_zero: "(\<And>x. x \<in> set xs \<Longrightarrow> x = 0) \<Longrightarrow> sum_list xs = (0::real)"
  by (induction xs) auto

lemma dot_zero:
  assumes "length u = length v" and "\<And>k. k < length u \<Longrightarrow> u ! k = 0 \<or> v ! k = 0"
  shows "dot u v = 0"
proof -
  have "x = 0" if "x \<in> set (map2 (*) u v)" for x
  proof -
    from that obtain k where "k < length u" "x = u ! k * v ! k"
      using assms(1) by (auto simp: set_zip)
    with assms(2) show ?thesis by auto
  qed
  then show ?thesis
    unfolding dot_def by (rule sum_list_all_zero)
qed

lemma similarity_disjoint:
  assumes "set (analyze d) \<inter> set (analyze q) = {}"
  shows "dot (normalize (tfidf_row corpus d)) (normalize (tfidf_row corpus q)) = 0"
proof (rule dot_zero)
  show "length (normalize (tfidf_row corpus d)) = length (normalize (tfidf_row corpus q))"
    by (simp add: length_normalize length_tfidf_row)
next
  fix k
  assume "k < length (normalize (tfidf_row corpus d))"
  then have k: "k < length (vocabulary corpus)"
    by (simp add: length_normalize length_tfidf_row)
  from assms have "vocabulary corpus ! k \<notin> set (analyze d) \<or> vocabulary corpus ! k \<notin> set (analyze q)"
    by blast
  then have "tfidf_row corpus d ! k = 0 \<or> tfidf_row corpus q ! k = 0"
    using k by (auto simp: tfidf_row_absent)
  then show "normalize (tfidf_row corpus d) ! k = 0 \<or> normalize (tfidf_row corpus q) ! k = 0"
    using k by (auto simp: normalize_zero_nth length_tfidf_row)
qed

lemma cos_sims_disjoint:
  assumes "movies \<noteq> []" and "vocabulary (form_corpus movies query) \<noteq> []"
    and "\<forall>m\<in>set movies. set (analyze (Plot m)) \<inter> set (analyze query) = {}"
  shows "calculate_cos_similarities (form_corpus movies query) = Inr (replicate (length movies) 0)"
proof -
  let ?c = "form_corpus movies query"
  have "map (\<lambda>doc. dot (normalize (tfidf_row ?c doc)) (normalize (tfidf_row ?c query))) (map Plot movies)
      = map (\<lambda>m. 0) movies"
    using assms(3) by (simp add: similarity_disjoint)
  also have "\<dots> = replicate (length movies) 0"
    by (simp add: map_replicate_const)
  finally show ?thesis
    using assms(1,2)
    by (simp add: calculate_cos_similarities_cases butlast_form_corpus last_form_corpus
        length_form_corpus)
qed

lemma set_vocabulary: "set (vocabulary corpus) = (\<Union>doc\<in>set corpus. set (analyze doc))"
  by (simp add: vocabulary_def)

lemma vocabulary_empty_iff: "vocabulary corpus = [] \<longleftrightarrow> (\<forall>doc\<in>set corpus. analyze doc = [])"
  using set_vocabulary [of corpus] by (auto simp flip: set_empty)

lemma df_le_length: "df corpus t \<le> length corpus"
  by (simp add: df_def)

lemma idf_ge_1: "1 \<le> idf corpus t"
proof -
  have "1 \<le> (1 + real (length corpus)) / (1 + real (df corpus t))"
    using df_le_length [of corpus t] by (simp add: le_divide_eq_1_pos)
  then have "0 \<le> ln ((1 + real (length corpus)) / (1 + real (df corpus t)))"
    by (rule ln_ge_zero)
  then show ?thesis by (simp add: idf_def)
qed


lemma find_recommendations_rows:
  assumes "argsort_ok asort"
    and "calculate_cos_similarities (form_corpus movies query) = Inr cos_sims"
  shows "find_recommendations asort movies query n =
         Inr (map (\<lambda>i. movies ! i) (top_idxs asort cos_sims n))"
proof -
  have "length cos_sims = length movies"
    using assms(2) by (rule length_cos_sims)
  then have "iloc movies (top_idxs asort cos_sims n) = Inr (map (\<lambda>i. movies ! i) (top_idxs asort cos_sims n))"
    using top_idxs_in_range [OF assms(1), of _ cos_sims n] by (simp add: iloc_in_range)
  then show ?thesis
    by (simp add: find_recommendations_def assms(2))
qed

lemma nonpositive_count_rows:
  assumes "argsort_ok asort" and "n \<le> 0"
    and "calculate_cos_similarities (form_corpus movies query) = Inr cos_sims"
  shows "\<exists>rows. find_recommendations asort movies query n = Inr rows \<and>
           length rows = length movies - nat (- n)"
  using assms
  by (simp add: find_recommendations_rows length_top_idxs_nonpos length_cos_sims)

subsection \<open>Weights, norms and positive scores\<close>

lemma sum_list_pos_member:
  fixes xs :: "real list"
  assumes "\<And>x. x \<in> set xs \<Longrightarrow> 0 \<le> x" and "y \<in> set xs" and "0 < y"
  shows "0 < sum_list xs"
  using assms
proof (induction xs)
  case Nil
  then show ?case by simp
next
  case (Cons x xs)
  have nn: "0 \<le> sum_list xs"
    using Cons.prems(1) by (simp add: sum_list_nonneg)
  show ?case
  proof (cases "y = x")
    case True
    with Cons.prems(3) nn show ?thesis by simp
  next
    case False
    with Cons.prems have "y \<in> set xs" by simp
    then have "0 < sum_list xs"
      using Cons.IH Cons.prems(1,3) by simp
    moreover have "0 \<le> x" using Cons.prems(1) by simp
    ultimately show ?thesis by simp
  qed
qed

lemma l2_norm_nonneg: "0 \<le> l2_norm v"
  by (auto simp: l2_norm_def intro!: sum_list_nonneg)

lemma l2_norm_pos:
  assumes "x \<in> set v" and "x \<noteq> 0"
  shows "0 < l2_norm v"
proof -
  have "0 < sum_list (map (\<lambda>x. x * x) v)"
  proof (rule sum_list_pos_member)
    show "x * x \<in> set (map (\<lambda>x. x * x) v)" using assms(1) by simp
    show "0 < x * x" using assms(2) by (auto simp: zero_less_mult_iff neq_iff)
  qed auto
  then show ?thesis by (simp add: l2_norm_def)
qed

lemma l2_norm_scale:
  assumes "0 < c"
  shows "l2_norm (map (\<lambda>x. x / c) v) = l2_norm v / c"
proof -
  have "sum_list (map (\<lambda>x. x / c * (x / c)) v) = sum_list (map (\<lambda>x. x * x) v) / (c * c)"
    by (induction v) (simp_all add: add_divide_distrib)
  then have "l2_norm (map (\<lambda>x. x / c) v) = sqrt (sum_list (map (\<lambda>x. x * x) v) / (c * c))"
    by (simp add: l2_norm_def comp_def)
  also have "\<dots> = l2_norm v / c"
    using assms by (simp add: l2_norm_def real_sqrt_divide)
  finally show ?thesis .
qed

lemma l2_norm_normalize:
  assumes "0 < l2_norm v"
  shows "l2_norm (normalize v) = 1"
  using assms l2_norm_scale [OF assms, of v] by (simp add: normalize_def Let_def)


lemma divisor_pos: "0 < (if l2_norm v = 0 then 1 else l2_norm v)"
  using l2_norm_nonneg [of v] by auto

lemma normalize_nth:
  "k < length v \<Longrightarrow> normalize v ! k = v ! k / (if l2_norm v = 0 then 1 else l2_norm v)"
  by (simp add: normalize_def Let_def)

lemma idf_pos: "0 < idf corpus t"
  using idf_ge_1 [of corpus t] by simp

lemma tfidf_row_nth:
  assumes "k < length (vocabulary corpus)"
  shows "\<exists>c>0. tfidf_row corpus doc ! k =
           real (count_list (analyze doc) (vocabulary corpus ! k)) * idf corpus (vocabulary corpus ! k) / c"
proof -
  let ?w = "map (\<lambda>t. real (count_list (analyze doc) t) * idf corpus t) (vocabulary corpus)"
  have "tfidf_row corpus doc ! k =
      real (count_list (analyze doc) (vocabulary corpus ! k)) * idf corpus (vocabulary corpus ! k) /
        (if l2_norm ?w = 0 then 1 else l2_norm ?w)"
    using assms by (simp add: tfidf_row_def normalize_nth)
  then show ?thesis using divisor_pos [of ?w] by blast
qed



lemma tfidf_row_unit:
  assumes "doc \<in> set corpus" and "analyze doc \<noteq> []"
  shows "l2_norm (tfidf_row corpus doc) = 1"
proof -
  let ?w = "map (\<lambda>t. real (count_list (analyze doc) t) * idf corpus t) (vocabulary corpus)"
  from assms(2) obtain t where t: "t \<in> set (analyze doc)"
    by (cases "analyze doc") auto
  with assms(1) have "t \<in> set (vocabulary corpus)"
    by (auto simp: set_vocabulary)
  then have "real (count_list (analyze doc) t) * idf corpus t \<in> set ?w" by simp
  moreover have "real (count_list (analyze doc) t) * idf corpus t \<noteq> 0"
    using t idf_pos [of corpus t] count_list_0_iff [of "analyze doc" t] by auto
  ultimately have "0 < l2_norm ?w" by (rule l2_norm_pos)
  then show ?thesis
    unfolding tfidf_row_def by (rule l2_norm_normalize)
qed


lemma tfidf_row_nonneg: "k < length (vocabulary corpus) \<Longrightarrow> 0 \<le> tfidf_row corpus doc ! k"
  using tfidf_row_nth [of k corpus doc] idf_pos [of corpus "vocabulary corpus ! k"]
  by auto

lemma tfidf_row_pos:
  assumes "k < length (vocabulary corpus)" and "vocabulary corpus ! k \<in> set (analyze doc)"
  shows "0 < tfidf_row corpus doc ! k"
proof -
  have "0 < real (count_list (analyze doc) (vocabulary corpus ! k))"
    using assms(2) count_list_0_iff [of "analyze doc" "vocabulary corpus ! k"] by auto
  then show ?thesis
    using tfidf_row_nth [OF assms(1), of doc] idf_pos [of corpus "vocabulary corpus ! k"]
    by auto
qed

lemma similarity_shared:
  assumes "t \<in> set (analyze d)" and "t \<in> set (analyze q)" and "t \<in> set (vocabulary corpus)"
  shows "0 < dot (normalize (tfidf_row corpus d)) (normalize (tfidf_row corpus q))"
proof -
  let ?u = "normalize (tfidf_row corpus d)" and ?v = "normalize (tfidf_row corpus q)"
  have len: "length ?u = length (vocabulary corpus)" "length ?v = length (vocabulary corpus)"
    by (simp_all add: length_normalize length_tfidf_row)
  from assms(3) obtain k where k: "k < length (vocabulary corpus)" "vocabulary corpus ! k = t"
    by (auto simp: in_set_conv_nth)
  have nn: "0 \<le> normalize (tfidf_row corpus x) ! j" if "j < length (vocabulary corpus)" for x j
    using that tfidf_row_nonneg [of j corpus x] divisor_pos [of "tfidf_row corpus x"]
    by (simp add: normalize_nth length_tfidf_row del: if_split)
  have pos: "0 < normalize (tfidf_row corpus x) ! k" if "t \<in> set (analyze x)" for x
    using that k tfidf_row_pos [of k corpus x] divisor_pos [of "tfidf_row corpus x"]
    by (simp add: normalize_nth length_tfidf_row del: if_split)
  show ?thesis
    unfolding dot_def
  proof (rule sum_list_pos_member)
    fix x assume "x \<in> set (map2 (*) ?u ?v)"
    then obtain j where "j < length (vocabulary corpus)" "x = ?u ! j * ?v ! j"
      using len by (auto simp: set_zip)
    then show "0 \<le> x" using nn by simp
  next
    show "?u ! k * ?v ! k \<in> set (map2 (*) ?u ?v)"
      using k(1) len by (force simp: set_zip)
    show "0 < ?u ! k * ?v ! k"
      using pos [OF assms(1)] pos [OF assms(2)] by simp
  qed
qed

lemma dot_self: "dot v v = sum_list (map (\<lambda>x. x * x) v)"
  by (simp add: dot_def zip_same_conv_map comp_def)

lemma similarity_same_tokens:
  assumes "analyze d = analyze q" and "analyze q \<noteq> []" and "q \<in> set corpus"
  shows "dot (normalize (tfidf_row corpus d)) (normalize (tfidf_row corpus q)) = 1"
proof -
  have same: "tfidf_row corpus d = tfidf_row corpus q"
    using assms(1) by (simp add: tfidf_row_def)
  have "l2_norm (tfidf_row corpus q) = 1"
    using assms(3,2) by (rule tfidf_row_unit)
  then have "l2_norm (normalize (tfidf_row corpus q)) = 1"
    by (simp add: l2_norm_normalize)
  then have "sum_list (map (\<lambda>x. x * x) (normalize (tfidf_row corpus q))) = 1"
    by (simp add: l2_norm_def)
  then show ?thesis by (simp add: same dot_self)
qed

section \<open>The claims\<close>

subsection \<open>Concrete corpora\<close>

lemmas tokenizer_simps = analyze_def lower_def word_char_def emit_def Let_def

lemma example_vocabulary:
  "vocabulary (form_corpus [\<lparr>Title = ''A'', Plot = ''cats and dogs play''\<rparr>,
       \<lparr>Title = ''B'', Plot = ''dogs bark loudly''\<rparr>] '''') \<noteq> []"
  by (simp add: vocabulary_empty_iff form_corpus_def tokenizer_simps)

lemma example_cos_sims:
  "calculate_cos_similarities (form_corpus [\<lparr>Title = ''A'', Plot = ''cats and dogs play''\<rparr>,
       \<lparr>Title = ''B'', Plot = ''dogs bark loudly''\<rparr>] '''') = Inr [0, 0]"
  using cos_sims_disjoint [OF _ example_vocabulary]
  by (simp add: tokenizer_simps)

lemma example_top_idxs: "top_idxs argsort_stable [0, 0] 2 = [1, 0]" "top_idxs argsort_stable [0, 0] 1 = [1]"
  by (simp_all add: top_idxs_def slice_from_def argsort_stable_def)

lemma example_vocabulary3:
  "vocabulary (form_corpus [\<lparr>Title = ''A'', Plot = ''cats and dogs play''\<rparr>,
       \<lparr>Title = ''B'', Plot = ''dogs bark loudly''\<rparr>,
       \<lparr>Title = ''C'', Plot = ''completely unrelated text about finance''\<rparr>] q) \<noteq> []"
  by (simp add: vocabulary_empty_iff form_corpus_def tokenizer_simps)

lemma example_cos_sims3:
  "calculate_cos_similarities (form_corpus [\<lparr>Title = ''A'', Plot = ''cats and dogs play''\<rparr>,
       \<lparr>Title = ''B'', Plot = ''dogs bark loudly''\<rparr>,
       \<lparr>Title = ''C'', Plot = ''completely unrelated text about finance''\<rparr>] ''zebra'')
   = Inr [0, 0, 0]"
  using cos_sims_disjoint [OF _ example_vocabulary3 [of "''zebra''"]]
  by (simp add: tokenizer_simps)

lemma example_tie_cos_sims:
  "calculate_cos_similarities (form_corpus [\<lparr>Title = ''A'', Plot = ''dogs bark''\<rparr>,
       \<lparr>Title = ''B'', Plot = ''dogs bark''\<rparr>] ''dogs bark'') = Inr [1, 1]"
proof -
  let ?c = "[''dogs bark'', ''dogs bark'', ''dogs bark'']"
  have "dot (normalize (tfidf_row ?c ''dogs bark'')) (normalize (tfidf_row ?c ''dogs bark'')) = 1"
    by (rule similarity_same_tokens) (simp_all add: tokenizer_simps)
  moreover have "vocabulary ?c \<noteq> []"
    by (simp add: vocabulary_empty_iff tokenizer_simps)
  ultimately show ?thesis
    by (simp add: calculate_cos_similarities_cases form_corpus_def)
qed

lemma example_tie_orders:
  "top_idxs argsort_stable [s, s] 2 = [1, 0]" "top_idxs argsort_reverse_ties [s, s] 2 = [0, 1]"
  by (simp_all add: top_idxs_def slice_from_def argsort_stable_def argsort_reverse_ties_def)

lemma example_ranked_vocabulary:
  "vocabulary [''Dogs bark!'', ''Cats purr.'', ''dogs bark''] = [''bark'', ''cats'', ''dogs'', ''purr'']"
  by (simp add: vocabulary_def tokenizer_simps)

lemma example_ranked_cos_sims:
  "calculate_cos_similarities (form_corpus [\<lparr>Title = ''A'', Plot = ''Dogs bark!''\<rparr>,
       \<lparr>Title = ''B'', Plot = ''Cats purr.''\<rparr>] ''dogs bark'') = Inr [1, 0]"
proof -
  let ?c = "[''Dogs bark!'', ''Cats purr.'', ''dogs bark'']"
  have "dot (normalize (tfidf_row ?c ''Dogs bark!'')) (normalize (tfidf_row ?c ''dogs bark'')) = 1"
    by (rule similarity_same_tokens) (simp_all add: tokenizer_simps)
  moreover have "dot (normalize (tfidf_row ?c ''Cats purr.'')) (normalize (tfidf_row ?c ''dogs bark'')) = 0"
    by (rule similarity_disjoint) (simp add: tokenizer_simps)
  ultimately show ?thesis
    by (simp add: calculate_cos_similarities_cases form_corpus_def example_ranked_vocabulary)
qed

lemma example_ranked_top_idxs: "top_idxs argsort_stable [1, 0] 2 = [0, 1]"
  by (simp add: top_idxs_def slice_from_def argsort_stable_def)





subsection \<open>C1: the order of documents with equal scores\<close>

text \<open>
  Claim C1 says that of two documents with exactly equal scores the one with the lower
  position in the corpus comes first. The two movies below have the same plot, which is
  also the query, so both score 1; under the stable sort, which is within the contract
  of \<^verbatim>\<open>argsort\<close>, the ranking returns \<open>B\<close> (position 1) before \<open>A\<close>
  (position 0).
\<close>
theorem ties_lower_index_first_counterexample:
  "argsort_ok argsort_stable \<and>
   calculate_cos_similarities (form_corpus [\<lparr>Title = ''A'', Plot = ''dogs bark''\<rparr>,
       \<lparr>Title = ''B'', Plot = ''dogs bark''\<rparr>] ''dogs bark'') = Inr [1, 1] \<and>
   find_recommendations argsort_stable [\<lparr>Title = ''A'', Plot = ''dogs bark''\<rparr>,
       \<lparr>Title = ''B'', Plot = ''dogs bark''\<rparr>] ''dogs bark'' 2 =
     Inr [\<lparr>Title = ''B'', Plot = ''dogs bark''\<rparr>, \<lparr>Title = ''A'', Plot = ''dogs bark''\<rparr>]"
  by (simp add: argsort_ok_stable example_tie_cos_sims find_recommendations_def
      example_tie_orders iloc_def)

text \<open>
  Claim C1 as amended: \<open>find_recommendations\<close> has no rule for documents with exactly
  equal scores. Their order is the reverse of the order \<^verbatim>\<open>argsort\<close> gives them,
  and the contract of \<^verbatim>\<open>argsort\<close> allows either: for any two documents \<open>p < q\<close>
  with equal scores, when all documents are returned, one sort within the contract puts
  \<open>q\<close> before \<open>p\<close> and another puts \<open>p\<close> before \<open>q\<close>.
\<close>
theorem tied_documents_either_order:
  assumes "calculate_cos_similarities (form_corpus movies query) = Inr cos_sims"
    and "p < q" and "q < length movies" and "cos_sims ! p = cos_sims ! q"
    and "int (length movies) \<le> n"
  shows "argsort_ok argsort_stable \<and> argsort_ok argsort_reverse_ties \<and>
         find_recommendations argsort_stable movies query n =
           Inr (map (\<lambda>k. movies ! k) (top_idxs argsort_stable cos_sims n)) \<and>
         find_recommendations argsort_reverse_ties movies query n =
           Inr (map (\<lambda>k. movies ! k) (top_idxs argsort_reverse_ties cos_sims n)) \<and>
         (\<exists>i j. i < j \<and> j < length (top_idxs argsort_stable cos_sims n) \<and>
            top_idxs argsort_stable cos_sims n ! i = q \<and>
            top_idxs argsort_stable cos_sims n ! j = p) \<and>
         (\<exists>i j. i < j \<and> j < length (top_idxs argsort_reverse_ties cos_sims n) \<and>
            top_idxs argsort_reverse_ties cos_sims n ! i = p \<and>
            top_idxs argsort_reverse_ties cos_sims n ! j = q)"
proof -
  have len: "length cos_sims = length movies"
    using assms(1) by (rule length_cos_sims)
  have all: "set (top_idxs asort cos_sims n) = {..<length movies}" if "argsort_ok asort" for asort
    using set_top_idxs_all [OF that, of cos_sims n] assms(5) len by simp
  have pq: "p \<in> set (top_idxs asort cos_sims n)" "q \<in> set (top_idxs asort cos_sims n)"
    if "argsort_ok asort" for asort
    using all [OF that] assms(2,3) by simp_all
  note s = argsort_ok_stable and r = argsort_ok_reverse_ties
  show ?thesis
    using s r find_recommendations_rows [OF s assms(1), of n]
      find_recommendations_rows [OF r assms(1), of n]
      tie_order_stable [OF assms(2,4) pq [OF s]]
      tie_order_reverse_ties [OF assms(2,4) pq [OF r]]
    by blast
qed

text \<open>The theorem at two movies with the same plot, \<open>p = 0\<close>, \<open>q = 1\<close> and \<open>n = 2\<close>.\<close>
theorem tied_documents_either_order_witness:
  "find_recommendations argsort_stable [\<lparr>Title = ''A'', Plot = ''dogs bark''\<rparr>,
       \<lparr>Title = ''B'', Plot = ''dogs bark''\<rparr>] ''dogs bark'' 2 =
     Inr [\<lparr>Title = ''B'', Plot = ''dogs bark''\<rparr>, \<lparr>Title = ''A'', Plot = ''dogs bark''\<rparr>] \<and>
   find_recommendations argsort_reverse_ties [\<lparr>Title = ''A'', Plot = ''dogs bark''\<rparr>,
       \<lparr>Title = ''B'', Plot = ''dogs bark''\<rparr>] ''dogs bark'' 2 =
     Inr [\<lparr>Title = ''A'', Plot = ''dogs bark''\<rparr>, \<lparr>Title = ''B'', Plot = ''dogs bark''\<rparr>]"
  using tied_documents_either_order [OF example_tie_cos_sims, of 0 1 2]
  by (simp add: example_tie_orders)

subsection \<open>C2: a count of zero or less\<close>

text \<open>
  Claim C2 says that a count \<open>n \<le> 0\<close> gives an empty result without an error. The
  slice \<^verbatim>\<open>[-n:]\<close> with \<open>n = 0\<close> is \<^verbatim>\<open>[0:]\<close>, the whole array, and with
  \<open>n = -1\<close> it is \<^verbatim>\<open>[1:]\<close>: on three movies \<open>find_recommendations\<close> returns
  all three for \<open>n = 0\<close> and two of them for \<open>n = -1\<close>, where the docstring promises
  the top \<open>n\<close>. The run below uses the stable sort; under any sort within the contract
  of \<^verbatim>\<open>argsort\<close> a count \<open>n \<le> 0\<close> drops the \<open>- n\<close> lowest-scored movies and
  returns the others (\<open>nonpositive_count_rows\<close>).
\<close>
theorem zero_count_returns_all:
  "find_recommendations argsort_stable [\<lparr>Title = ''A'', Plot = ''cats and dogs play''\<rparr>,
       \<lparr>Title = ''B'', Plot = ''dogs bark loudly''\<rparr>,
       \<lparr>Title = ''C'', Plot = ''completely unrelated text about finance''\<rparr>] ''zebra'' 0
   = Inr [\<lparr>Title = ''C'', Plot = ''completely unrelated text about finance''\<rparr>,
          \<lparr>Title = ''B'', Plot = ''dogs bark loudly''\<rparr>,
          \<lparr>Title = ''A'', Plot = ''cats and dogs play''\<rparr>] \<and>
   find_recommendations argsort_stable [\<lparr>Title = ''A'', Plot = ''cats and dogs play''\<rparr>,
       \<lparr>Title = ''B'', Plot = ''dogs bark loudly''\<rparr>,
       \<lparr>Title = ''C'', Plot = ''completely unrelated text about finance''\<rparr>] ''zebra'' (- 1)
   = Inr [\<lparr>Title = ''C'', Plot = ''completely unrelated text about finance''\<rparr>,
          \<lparr>Title = ''B'', Plot = ''dogs bark loudly''\<rparr>]"
  by (simp add: find_recommendations_def example_cos_sims3 top_idxs_def slice_from_def
      argsort_stable_def iloc_def)

subsection \<open>C3: a query with no term\<close>

text \<open>
  Claim C3 says that for a non-empty corpus and a query without terms every score is 0
  and the first \<open>n\<close> documents are returned in corpus order. For the empty query and
  \<open>n = 1\<close> the stable sort, which is within the contract of \<^verbatim>\<open>argsort\<close>,
  makes the ranking return \<open>B\<close>, the last document, not \<open>A\<close>; and when no plot has a
  term either, the vectorizer raises whatever the sort.
\<close>
theorem degenerate_query_first_n_counterexample:
  "argsort_ok argsort_stable \<and>
   find_recommendations argsort_stable [\<lparr>Title = ''A'', Plot = ''cats and dogs play''\<rparr>,
       \<lparr>Title = ''B'', Plot = ''dogs bark loudly''\<rparr>] '''' 1 =
     Inr [\<lparr>Title = ''B'', Plot = ''dogs bark loudly''\<rparr>] \<and>
   find_recommendations argsort_stable [\<lparr>Title = ''A'', Plot = ''...''\<rparr>] '''' 1 = Inl EmptyVocabulary"
proof (intro conjI)
  show "argsort_ok argsort_stable" by (rule argsort_ok_stable)
  show "find_recommendations argsort_stable [\<lparr>Title = ''A'', Plot = ''cats and dogs play''\<rparr>,
       \<lparr>Title = ''B'', Plot = ''dogs bark loudly''\<rparr>] '''' 1 =
     Inr [\<lparr>Title = ''B'', Plot = ''dogs bark loudly''\<rparr>]"
    by (simp add: example_cos_sims find_recommendations_def example_top_idxs iloc_def)
  show "find_recommendations argsort_stable [\<lparr>Title = ''A'', Plot = ''...''\<rparr>] '''' 1 = Inl EmptyVocabulary"
    by (simp add: find_recommendations_def calculate_cos_similarities_cases vocabulary_empty_iff
        form_corpus_def tokenizer_simps)
qed

text \<open>
  Claim C3 as amended: for a non-empty corpus whose vocabulary (with the query) is not
  empty, when the query shares no term with any plot (in particular when it tokenizes to
  no term at all), every score is 0 and, for \<open>n > 0\<close>, \<open>find_recommendations\<close> returns
  without an error \<open>min n (length movies)\<close> different documents of the corpus. Which
  ones, and in which order, is left to the order \<^verbatim>\<open>argsort\<close> gives to equal
  values: within its contract, the stable sort yields the last documents in reverse
  corpus order and the sort with the opposite tie order yields the first documents in
  corpus order.
\<close>
theorem degenerate_query_zero_scores:
  assumes "argsort_ok asort" and "movies \<noteq> []"
    and "vocabulary (form_corpus movies query) \<noteq> []"
    and "\<forall>m\<in>set movies. set (analyze (Plot m)) \<inter> set (analyze query) = {}"
    and "0 < n"
  shows "calculate_cos_similarities (form_corpus movies query) = Inr (replicate (length movies) 0) \<and>
         find_recommendations asort movies query n =
           Inr (map (\<lambda>i. movies ! i) (top_idxs asort (replicate (length movies) 0) n)) \<and>
         length (top_idxs asort (replicate (length movies) 0) n) = min (nat n) (length movies) \<and>
         distinct (top_idxs asort (replicate (length movies) 0) n) \<and>
         list_all (\<lambda>i. i < length movies) (top_idxs asort (replicate (length movies) 0) n) \<and>
         argsort_ok argsort_stable \<and>
         find_recommendations argsort_stable movies query n = Inr (take (nat n) (rev movies)) \<and>
         argsort_ok argsort_reverse_ties \<and>
         find_recommendations argsort_reverse_ties movies query n = Inr (take (nat n) movies)"
proof -
  let ?z = "replicate (length movies) (0::real)"
  have sims: "calculate_cos_similarities (form_corpus movies query) = Inr ?z"
    using assms(2,3,4) by (simp add: cos_sims_disjoint)
  have rows: "find_recommendations f movies query n = Inr (map (\<lambda>i. movies ! i) (top_idxs f ?z n))"
    if "argsort_ok f" for f
    using that sims by (rule find_recommendations_rows)
  have "distinct (top_idxs asort ?z n)"
    using assms(1) by (simp add: top_idxs_def slice_from_def argsort_ok_def distinct_drop)
  moreover have "list_all (\<lambda>i. i < length movies) (top_idxs asort ?z n)"
    using top_idxs_in_range [OF assms(1), of _ ?z n] by (simp add: list_all_iff)
  moreover have "length (top_idxs asort ?z n) = min (nat n) (length movies)"
    using assms(1,5) by (simp add: length_top_idxs)
  moreover have "find_recommendations argsort_stable movies query n = Inr (take (nat n) (rev movies))"
    using assms(5) by (simp only: rows [OF argsort_ok_stable] top_idxs_stable_replicate)
  moreover have "find_recommendations argsort_reverse_ties movies query n = Inr (take (nat n) movies)"
    using assms(5) by (simp only: rows [OF argsort_ok_reverse_ties] top_idxs_reverse_ties_replicate)
  ultimately show ?thesis
    using sims rows [OF assms(1)] argsort_ok_stable argsort_ok_reverse_ties by simp
qed

text \<open>The theorem at the empty query on three movies with \<open>n = 2\<close>.\<close>
theorem degenerate_query_zero_scores_witness:
  "calculate_cos_similarities (form_corpus [\<lparr>Title = ''A'', Plot = ''cats and dogs play''\<rparr>,
       \<lparr>Title = ''B'', Plot = ''dogs bark loudly''\<rparr>,
       \<lparr>Title = ''C'', Plot = ''completely unrelated text about finance''\<rparr>] '''') = Inr [0, 0, 0] \<and>
   find_recommendations argsort_stable [\<lparr>Title = ''A'', Plot = ''cats and dogs play''\<rparr>,
       \<lparr>Title = ''B'', Plot = ''dogs bark loudly''\<rparr>,
       \<lparr>Title = ''C'', Plot = ''completely unrelated text about finance''\<rparr>] '''' 2 =
     Inr [\<lparr>Title = ''C'', Plot = ''completely unrelated text about finance''\<rparr>,
          \<lparr>Title = ''B'', Plot = ''dogs bark loudly''\<rparr>] \<and>
   find_recommendations argsort_reverse_ties [\<lparr>Title = ''A'', Plot = ''cats and dogs play''\<rparr>,
       \<lparr>Title = ''B'', Plot = ''dogs bark loudly''\<rparr>,
       \<lparr>Title = ''C'', Plot = ''completely unrelated text about finance''\<rparr>] '''' 2 =
     Inr [\<lparr>Title = ''A'', Plot = ''cats and dogs play''\<rparr>,
          \<lparr>Title = ''B'', Plot = ''dogs bark loudly''\<rparr>] \<and>
   length (top_idxs argsort_stable (replicate 3 0) 2) = 2"
  using degenerate_query_zero_scores [OF argsort_ok_stable _ example_vocabulary3 [of "''''"],
      where n = 2]
  by (simp add: tokenizer_simps numeral_3_eq_3 numeral_2_eq_2 top_idxs_def slice_from_def
      argsort_stable_def)

subsection \<open>C4: the number of results\<close>

text \<open>
  Claim C4 says that for every non-empty corpus, every query and every \<open>n > 0\<close> there
  are \<open>min n (length movies)\<close> results and no error. A plot and a query without any
  token of two word characters leave the vocabulary empty, and the vectorizer raises.
\<close>
theorem result_count_counterexample:
  "find_recommendations argsort_stable [\<lparr>Title = ''A'', Plot = ''?''\<rparr>] ''!'' 10 = Inl EmptyVocabulary"
  by (simp add: find_recommendations_def calculate_cos_similarities_cases vocabulary_empty_iff
      form_corpus_def tokenizer_simps)

text \<open>
  Claim C4 as amended: for every non-empty corpus and query with at least one term among
  them, and every \<open>n > 0\<close>, \<open>find_recommendations\<close> returns without an error and the
  number of rows is \<open>min n (length movies)\<close>, under any \<^verbatim>\<open>argsort\<close>; in
  particular all documents are returned when \<open>n\<close> exceeds the corpus size.
\<close>
theorem result_count:
  assumes "argsort_ok asort" and "movies \<noteq> []"
    and "vocabulary (form_corpus movies query) \<noteq> []" and "0 < n"
  shows "\<exists>rows. find_recommendations asort movies query n = Inr rows \<and>
           length rows = min (nat n) (length movies)"
proof -
  from assms(2,3) obtain cos_sims
    where sims: "calculate_cos_similarities (form_corpus movies query) = Inr cos_sims"
    by (simp add: calculate_cos_similarities_cases length_form_corpus)
  have "find_recommendations asort movies query n =
      Inr (map (\<lambda>i. movies ! i) (top_idxs asort cos_sims n))"
    using assms(1) sims by (rule find_recommendations_rows)
  moreover have "length (top_idxs asort cos_sims n) = min (nat n) (length movies)"
    using assms(1,4) by (simp add: length_top_idxs length_cos_sims [OF sims])
  ultimately show ?thesis by simp
qed

text \<open>The theorem at three movies and \<open>n = 10\<close>: three rows.\<close>
theorem result_count_witness:
  "\<exists>rows. find_recommendations argsort_stable [\<lparr>Title = ''A'', Plot = ''cats and dogs play''\<rparr>,
       \<lparr>Title = ''B'', Plot = ''dogs bark loudly''\<rparr>,
       \<lparr>Title = ''C'', Plot = ''completely unrelated text about finance''\<rparr>] ''dogs playing'' 10
     = Inr rows \<and> length rows = 3"
  using result_count [OF argsort_ok_stable _ example_vocabulary3 [of "''dogs playing''"],
      where n = 10]
  by (simp add: numeral_3_eq_3)

subsection \<open>C5: an empty table\<close>

text \<open>
  Claim C5: when the table has no movie, the corpus is the query alone and
  \<open>find_recommendations\<close> ends in an error, never in an empty result: the vectorizer
  raises on a query without terms, and otherwise \<^verbatim>\<open>cosine_similarity\<close> refuses
  the matrix with no row.
\<close>
theorem empty_corpus_raises:
  "find_recommendations asort [] query n =
     Inl (if analyze query = [] then EmptyVocabulary else ZeroSamples)"
  by (simp add: find_recommendations_def calculate_cos_similarities_cases vocabulary_empty_iff
      form_corpus_def)

text \<open>The theorem at a query with terms and at one without.\<close>
theorem empty_corpus_raises_witness:
  "find_recommendations argsort_stable [] ''dogs playing'' 3 = Inl ZeroSamples \<and>
   find_recommendations argsort_stable [] ''?'' 3 = Inl EmptyVocabulary"
  using empty_corpus_raises [of argsort_stable "''dogs playing''" 3]
    empty_corpus_raises [of argsort_stable "''?''" 3]
  by (simp add: tokenizer_simps)

subsection \<open>C6: a corpus without any term\<close>

text \<open>
  Claim C6 says that when every string tokenizes to zero terms the vectorizer yields
  all-zero vectors without an error and the similarities are zero. On two such strings
  the vectorizer raises, and so does \<open>calculate_cos_similarities\<close>.
\<close>
theorem no_terms_all_zero_counterexample:
  "fit_transform [''?!'', ''''] = Inl EmptyVocabulary \<and>
   calculate_cos_similarities [''?!'', ''''] = Inl EmptyVocabulary"
  by (simp add: fit_transform_def calculate_cos_similarities_cases vocabulary_empty_iff
      tokenizer_simps)

text \<open>
  Claim C6 as amended: when every string of the input tokenizes to zero terms, the
  vectorizer raises the empty-vocabulary error and \<open>calculate_cos_similarities\<close> passes
  it on; no vector and no similarity is produced.
\<close>
theorem no_terms_raises_empty_vocabulary:
  assumes "\<forall>doc\<in>set corpus. analyze doc = []"
  shows "fit_transform corpus = Inl EmptyVocabulary \<and>
         calculate_cos_similarities corpus = Inl EmptyVocabulary"
  using assms by (simp add: fit_transform_def calculate_cos_similarities_cases vocabulary_empty_iff)

text \<open>
  The theorem at one string of one-letter words and one of punctuation: neither has a
  run of two word characters.
\<close>
theorem no_terms_raises_empty_vocabulary_witness:
  "fit_transform [''a b c'', ''...''] = Inl EmptyVocabulary \<and>
   calculate_cos_similarities [''a b c'', ''...''] = Inl EmptyVocabulary"
  using no_terms_raises_empty_vocabulary [of "[''a b c'', ''...'']"]
  by (simp add: tokenizer_simps)

subsection \<open>C7: descending scores\<close>

text \<open>
  Claim C7: for every corpus, query and \<open>n > 0\<close>, the scores of the rows returned by
  \<open>find_recommendations\<close> are non-increasing along the result, under any
  \<^verbatim>\<open>argsort\<close>. The result is the rows at \<open>top_idxs\<close>, in that order.
\<close>
theorem results_descending:
  assumes "argsort_ok asort" and "0 < n"
    and "calculate_cos_similarities (form_corpus movies query) = Inr cos_sims"
  shows "find_recommendations asort movies query n =
           Inr (map (\<lambda>i. movies ! i) (top_idxs asort cos_sims n)) \<and>
         sorted_wrt (\<ge>) (map (\<lambda>i. cos_sims ! i) (top_idxs asort cos_sims n))"
  using assms(1,3) by (simp add: find_recommendations_rows top_idxs_descending)

text \<open>
  The theorem at two movies with different scores, 1 for \<open>A\<close> and 0 for \<open>B\<close>: the
  positions in ascending order of score are \<open>1, 0\<close>, and the result is \<open>A\<close>, then \<open>B\<close>.
\<close>
theorem results_descending_witness:
  "find_recommendations argsort_stable [\<lparr>Title = ''A'', Plot = ''Dogs bark!''\<rparr>,
       \<lparr>Title = ''B'', Plot = ''Cats purr.''\<rparr>] ''dogs bark'' 2
     = Inr [\<lparr>Title = ''A'', Plot = ''Dogs bark!''\<rparr>, \<lparr>Title = ''B'', Plot = ''Cats purr.''\<rparr>] \<and>
   top_idxs argsort_stable [1, 0] 2 = [0, 1] \<and>
   sorted_wrt (\<ge>) (map (\<lambda>i. [1, 0 :: real] ! i) (top_idxs argsort_stable [1, 0] 2))"
  using results_descending [OF argsort_ok_stable _ example_ranked_cos_sims, of 2]
  by (simp add: example_ranked_top_idxs)

subsection \<open>C8: unit rows\<close>



subsection \<open>C9: the inverse document frequency\<close>



subsection \<open>C10: the query is not a recommendation\<close>



end
